theory Spec2Isabelle
  imports Complex_Main
begin

section \<open>Data model (models.py)\<close>

text \<open>
  Python floats are modelled as exact reals: the arithmetic of the program is followed
  operation by operation, without rounding. What the program settles by its own
  comparisons and assignments carries over to its double arithmetic; what rests on an
  exact sum reaching a threshold does not. Python ints are \<open>int\<close>, strings are
  \<open>string\<close>, timestamps are seconds on the real line.
\<close>

record DepthLevel =
  price :: real
  amount :: real

record VWAPResult =
  vwap_price :: real
  total_volume :: real
  levels_used :: int
  fully_filled :: bool

section \<open>Depth / VWAP primitive (depth.py)\<close>

text \<open>\<open>np.cumsum\<close>: the list of running sums.\<close>

fun cumsum_from :: "real \<Rightarrow> real list \<Rightarrow> real list" where
  "cumsum_from acc [] = []"
| "cumsum_from acc (x # xs) = (acc + x) # cumsum_from (acc + x) xs"

definition cumsum :: "real list \<Rightarrow> real list" where
  "cumsum xs = cumsum_from 0 xs"

text \<open>\<open>np.where(c >= t)[0]\<close>: the indices, in increasing order, at which the condition holds.\<close>

definition where_ge :: "real list \<Rightarrow> real \<Rightarrow> nat list" where
  "where_ge c t = filter (\<lambda>i. c ! i \<ge> t) [0..<length c]"

text \<open>
  \<open>calculate_vwap\<close>. The argument \<open>side\<close> is a Python string. All list reads are
  in range on the branch that performs them: the lists are non-empty there and
  \<open>fill_index\<close> is an index of \<open>cumulative_notionals\<close>.
\<close>

definition calculate_vwap :: "DepthLevel list \<Rightarrow> real \<Rightarrow> string \<Rightarrow> VWAPResult" where
  "calculate_vwap levels target_notional side =
    (if levels = [] \<or> target_notional \<le> 0 then
       \<lparr>vwap_price = 0, total_volume = 0, levels_used = 0, fully_filled = False\<rparr>
     else
       let prices = map price levels;
           amounts = map amount levels;
           notionals = map2 (*) prices amounts;
           cumulative_notionals = cumsum notionals;
           cumulative_amounts = cumsum amounts;
           fill_indices = where_ge cumulative_notionals target_notional
       in
       if fill_indices = [] then
         let total_notional = last cumulative_notionals;
             total_amount = last cumulative_amounts;
             vwap = (if total_amount > 0 then total_notional / total_amount else 0)
         in \<lparr>vwap_price = vwap, total_volume = total_amount,
              levels_used = int (length levels), fully_filled = False\<rparr>
       else
         let fill_index = hd fill_indices in
         if fill_index = 0 then
           let price0 = prices ! 0;
               amount_needed = target_notional / price0
           in \<lparr>vwap_price = price0, total_volume = amount_needed,
                levels_used = 1, fully_filled = True\<rparr>
         else
           let full_levels_notional = cumulative_notionals ! (fill_index - 1);
               remaining_notional = target_notional - full_levels_notional;
               last_level_price = prices ! fill_index;
               partial_amount = remaining_notional / last_level_price;
               total_amount_filled = cumulative_amounts ! (fill_index - 1) + partial_amount;
               total_weighted =
                 (if fill_index > 0 then
                    sum_list (map2 (*) (take fill_index prices) (take fill_index amounts))
                      + last_level_price * partial_amount
                  else last_level_price * partial_amount);
               vwap = (if total_amount_filled > 0 then total_weighted / total_amount_filled else 0)
           in \<lparr>vwap_price = vwap, total_volume = total_amount_filled,
                levels_used = int fill_index + 1, fully_filled = True\<rparr>)"

definition calculate_buy_vwap :: "DepthLevel list \<Rightarrow> real \<Rightarrow> VWAPResult" where
  "calculate_buy_vwap asks target_notional = calculate_vwap asks target_notional ''buy''"

definition calculate_sell_vwap :: "DepthLevel list \<Rightarrow> real \<Rightarrow> VWAPResult" where
  "calculate_sell_vwap bids target_notional = calculate_vwap bids target_notional ''sell''"

section \<open>Records of models.py\<close>

record MarketMeta =
  mm_symbol :: string
  mm_base :: string
  mm_quote :: string
  active :: bool
  price_precision :: int
  amount_precision :: int
  min_amount :: "real option"
  mm_min_notional :: "real option"
  mm_exchange :: string

record OrderBook =
  ob_symbol :: string
  ob_exchange :: string
  bids :: "DepthLevel list"
  asks :: "DepthLevel list"
  ob_timestamp :: real
  nonce :: "int option"

text \<open>The field \<open>source\<close> of \<open>FeesPublic\<close> is one of "public", "default", "env".\<close>

datatype fee_source = Public | Default | Env

record FeesPublic =
  maker :: real
  taker :: real
  source :: fee_source
  fp_exchange :: string
  symbol_specific :: "string \<rightharpoonup> real \<times> real"

text \<open>
  \<open>FeesPublic.get_fees\<close>: the symbol-specific pair when the symbol is given (not
  \<open>None\<close>, not the empty string) and listed, the exchange-wide pair otherwise.
\<close>

definition FeesPublic_get_fees :: "FeesPublic \<Rightarrow> string option \<Rightarrow> real \<times> real" where
  "FeesPublic_get_fees self symbol =
    (case symbol of
       None \<Rightarrow> (maker self, taker self)
     | Some s \<Rightarrow>
         (if s \<noteq> [] then
            (case symbol_specific self s of
               Some p \<Rightarrow> p
             | None \<Rightarrow> (maker self, taker self))
          else (maker self, taker self)))"

record Opportunity =
  opp_symbol :: string
  buy_exchange :: string
  sell_exchange :: string
  buy_price_before_fees :: real
  sell_price_before_fees :: real
  buy_price_after_fees :: real
  sell_price_after_fees :: real
  spread_bps :: real
  opp_notional :: real
  buy_depth_levels :: int
  sell_depth_levels :: int
  buy_fees :: "real \<times> real"
  sell_fees :: "real \<times> real"
  opp_timestamp :: real
  opp_mode :: string

record TriOpportunity =
  tri_exchange :: string
  base_asset :: string
  path :: "string \<times> string \<times> string"
  start_amount :: real
  end_amount :: real
  gain_bps :: real
  tri_notional :: real
  leg1_symbol :: string
  leg1_price :: real
  leg1_side :: string
  leg2_symbol :: string
  leg2_price :: real
  leg2_side :: string
  leg3_symbol :: string
  leg3_price :: real
  leg3_side :: string
  tri_fees :: "real \<times> real"
  tri_timestamp :: real

subsection \<open>Deduplication keys\<close>

text \<open>\<open>int(x)\<close> on a float truncates toward zero; \<open>str\<close> of an int is its decimal numeral.\<close>

definition py_int :: "real \<Rightarrow> int" where
  "py_int x = (if 0 \<le> x then \<lfloor>x\<rfloor> else \<lceil>x\<rceil>)"

definition digit_char :: "nat \<Rightarrow> char" where
  "digit_char d = ''0123456789'' ! d"

fun str_nat :: "nat \<Rightarrow> string" where
  "str_nat n = (if n < 10 then [digit_char n] else str_nat (n div 10) @ [digit_char (n mod 10)])"

definition py_str_int :: "int \<Rightarrow> string" where
  "py_str_int i = (if i < 0 then CHR ''-'' # str_nat (nat (- i)) else str_nat (nat i))"

text \<open>\<open>sep.join(parts)\<close>.\<close>

fun py_join :: "string \<Rightarrow> string list \<Rightarrow> string" where
  "py_join sep [] = []"
| "py_join sep [x] = x"
| "py_join sep (x # y # ys) = x @ sep @ py_join sep (y # ys)"

definition Opportunity_dedupe_key :: "Opportunity \<Rightarrow> string" where
  "Opportunity_dedupe_key self =
     ''CROSS_'' @ buy_exchange self @ ''_'' @ sell_exchange self @ ''_'' @ opp_symbol self
       @ ''_'' @ py_str_int (py_int (opp_notional self))"

definition TriOpportunity_dedupe_key :: "TriOpportunity \<Rightarrow> string" where
  "TriOpportunity_dedupe_key self =
     (let path_str = (case path self of (p1, p2, p3) \<Rightarrow> py_join ''_'' [p1, p2, p3])
      in ''TRI_'' @ tri_exchange self @ ''_'' @ path_str @ ''_''
           @ py_str_int (py_int (tri_notional self)))"

text \<open>
  The key as the specification words it, with the separator left open: the fields joined
  by the separator, the notional floored.
\<close>

definition spec_cross_key :: "string \<Rightarrow> Opportunity \<Rightarrow> string" where
  "spec_cross_key sep opp =
     py_join sep [''CROSS'', buy_exchange opp, sell_exchange opp, opp_symbol opp,
                  py_str_int \<lfloor>opp_notional opp\<rfloor>]"

definition spec_tri_key :: "string \<Rightarrow> TriOpportunity \<Rightarrow> string" where
  "spec_tri_key sep t =
     (case path t of (b, a2, a3) \<Rightarrow>
        py_join sep [''TRI'', tri_exchange t, b, a2, a3, py_str_int \<lfloor>tri_notional t\<rfloor>])"

section \<open>Configuration (config.py)\<close>

text \<open>The configuration values read by the engines and the registry.\<close>

record Config =
  MIN_SPREAD_BPS :: real
  MIN_TRI_GAIN_BPS :: real
  MIN_NOTIONAL :: real
  TRI_BASES :: "string list"
  TRI_EXCLUDE_QUOTES :: "string list"

subsection \<open>String helpers of Python\<close>

text \<open>\<open>needle in haystack\<close> on strings: the needle occurs as a contiguous run.\<close>

fun starts_with :: "string \<Rightarrow> string \<Rightarrow> bool" where
  "starts_with s [] = True"
| "starts_with [] (n # ns) = False"
| "starts_with (c # cs) (n # ns) = (c = n \<and> starts_with cs ns)"

fun str_in :: "string \<Rightarrow> string \<Rightarrow> bool" where
  "str_in needle [] = (needle = [])"
| "str_in needle (c # cs) = (starts_with (c # cs) needle \<or> str_in needle cs)"

text \<open>\<open>s.split(c)\<close> for a one-character separator: never empty, \<open>"".split(c) = [""]\<close>.\<close>

fun py_split :: "char \<Rightarrow> string \<Rightarrow> string list" where
  "py_split sep [] = [[]]"
| "py_split sep (c # cs) =
     (if c = sep then [] # py_split sep cs
      else (case py_split sep cs of
              [] \<Rightarrow> [[c]]
            | p # ps \<Rightarrow> (c # p) # ps))"

text \<open>\<open>s.lower()\<close> on ASCII text.\<close>

definition lower_char :: "char \<Rightarrow> char" where
  "lower_char c =
     (case map_of (zip ''ABCDEFGHIJKLMNOPQRSTUVWXYZ'' ''abcdefghijklmnopqrstuvwxyz'') c of
        Some l \<Rightarrow> l
      | None \<Rightarrow> c)"

definition py_lower :: "string \<Rightarrow> string" where
  "py_lower s = map lower_char s"

subsection \<open>Fee overrides from the environment\<close>

text \<open>
  \<open>Config.get_fee_overrides\<close>. The environment is the list of the items of
  \<open>os.environ\<close>, in iteration order. \<open>float\<close> is Python's parser, a parameter here:
  \<open>None\<close> stands for its \<open>ValueError\<close>, on which the loop continues with the next
  variable; the entry of the exchange has been created by then.
\<close>

type_synonym fee_overrides = "string \<rightharpoonup> (string \<rightharpoonup> real)"

fun get_fee_overrides_loop ::
  "(string \<Rightarrow> real option) \<Rightarrow> (string \<times> string) list \<Rightarrow> fee_overrides \<Rightarrow> fee_overrides" where
  "get_fee_overrides_loop float [] overrides = overrides"
| "get_fee_overrides_loop float ((key, val) # rest) overrides =
     (if str_in ''_TAKER_FEE'' key \<or> str_in ''_MAKER_FEE'' key then
        let parts = py_split CHR ''_'' key in
        if length parts \<ge> 3 then
          let exchange = py_lower (parts ! 0);
              fee_type = py_lower (parts ! 1);
              overrides1 = (if overrides exchange = None
                            then overrides(exchange \<mapsto> Map.empty) else overrides)
          in (case float val of
                None \<Rightarrow> get_fee_overrides_loop float rest overrides1
              | Some v \<Rightarrow>
                  get_fee_overrides_loop float rest
                    (overrides1(exchange \<mapsto>
                       (case overrides1 exchange of
                          Some d \<Rightarrow> d(fee_type \<mapsto> v)
                        | None \<Rightarrow> [fee_type \<mapsto> v]))))
        else get_fee_overrides_loop float rest overrides
      else get_fee_overrides_loop float rest overrides)"

definition get_fee_overrides ::
  "(string \<Rightarrow> real option) \<Rightarrow> (string \<times> string) list \<Rightarrow> fee_overrides" where
  "get_fee_overrides float environ = get_fee_overrides_loop float environ Map.empty"

text \<open>
  The variable named \<open>key\<close> is read as the override of fee type \<open>ft\<close> for exchange
  \<open>ex\<close>; and the override a table of overrides holds for an exchange and a fee type.
\<close>

definition targets :: "string \<Rightarrow> string \<Rightarrow> string \<Rightarrow> bool" where
  "targets key ex ft =
     ((str_in ''_TAKER_FEE'' key \<or> str_in ''_MAKER_FEE'' key)
      \<and> length (py_split CHR ''_'' key) \<ge> 3
      \<and> py_lower (py_split CHR ''_'' key ! 0) = ex
      \<and> py_lower (py_split CHR ''_'' key ! 1) = ft)"

definition override_of :: "fee_overrides \<Rightarrow> string \<Rightarrow> string \<Rightarrow> real option" where
  "override_of overrides ex ft = (case overrides ex of None \<Rightarrow> None | Some d \<Rightarrow> d ft)"

section \<open>Exchange registry (registry.py)\<close>

text \<open>
  What the fee lookup reads of a ccxt exchange object: the entries of
  \<open>exchange.fees['trading']\<close> (no entry when the exchange publishes none) and, per
  market of \<open>exchange.markets\<close>, the entries \<open>maker\<close> and \<open>taker\<close> of the market.
  The value of an entry is a number or Python's \<open>None\<close>; a market entry can also be
  missing.
\<close>

type_synonym py_fee = "real option"

record CcxtMarket =
  market_maker :: "py_fee option"
  market_taker :: "py_fee option"

record CcxtExchange =
  trading_fees :: "(string \<times> py_fee) list"
  ccxt_markets :: "string \<rightharpoonup> CcxtMarket"

text \<open>The market dictionaries keep their insertion order: association lists.\<close>

record ExchangeRegistry =
  exchanges :: "string \<rightharpoonup> CcxtExchange"
  markets :: "string \<rightharpoonup> (string \<times> MarketMeta) list"

definition get_exchange :: "ExchangeRegistry \<Rightarrow> string \<Rightarrow> CcxtExchange option" where
  "get_exchange self exchange_name = exchanges self exchange_name"

definition get_markets :: "ExchangeRegistry \<Rightarrow> string \<Rightarrow> (string \<times> MarketMeta) list" where
  "get_markets self exchange_name =
     (case markets self exchange_name of Some ms \<Rightarrow> ms | None \<Rightarrow> [])"

subsection \<open>Triangular path enumeration\<close>

text \<open>
  The first loop of \<open>get_triangular_symbols\<close>: the active markets whose quote is not
  excluded, grouped by base (the quotes of each base) and by quote (the bases of each quote).
\<close>

type_synonym asset_groups = "(string \<rightharpoonup> string list) \<times> (string \<rightharpoonup> string list)"

definition group_append :: "(string \<rightharpoonup> string list) \<Rightarrow> string \<Rightarrow> string \<Rightarrow> (string \<rightharpoonup> string list)" where
  "group_append d k v = d(k \<mapsto> (case d k of None \<Rightarrow> [] | Some l \<Rightarrow> l) @ [v])"

text \<open>The list stored under a key, empty when the key is absent.\<close>

definition group_get :: "(string \<rightharpoonup> string list) \<Rightarrow> string \<Rightarrow> string list" where
  "group_get d k = (case d k of None \<Rightarrow> [] | Some l \<Rightarrow> l)"

fun group_markets :: "string list \<Rightarrow> (string \<times> MarketMeta) list \<Rightarrow> asset_groups \<Rightarrow> asset_groups" where
  "group_markets exclude_quotes [] g = g"
| "group_markets exclude_quotes ((symbol, market) # rest) (symbols_by_base, symbols_by_quote) =
     (if \<not> active market then
        group_markets exclude_quotes rest (symbols_by_base, symbols_by_quote)
      else if mm_quote market \<in> set exclude_quotes then
        group_markets exclude_quotes rest (symbols_by_base, symbols_by_quote)
      else
        group_markets exclude_quotes rest
          (group_append symbols_by_base (mm_base market) (mm_quote market),
           group_append symbols_by_quote (mm_quote market) (mm_base market)))"

text \<open>The three nested loops, innermost first.\<close>

definition paths_asset3 ::
  "string list \<Rightarrow> asset_groups \<Rightarrow> string \<Rightarrow> string \<Rightarrow> string list
    \<Rightarrow> (string \<times> string \<times> string) list" where
  "paths_asset3 exclude_quotes g base asset2 reachable_from_asset2 =
     concat (map (\<lambda>asset3.
       if asset3 = base \<or> asset3 = asset2 then []
       else if asset3 \<in> set exclude_quotes then []
       else (case snd g asset3 of
               Some bs \<Rightarrow> (if base \<in> set bs then [(base, asset2, asset3)] else [])
             | None \<Rightarrow> [])) reachable_from_asset2)"

definition paths_asset2 ::
  "string list \<Rightarrow> asset_groups \<Rightarrow> string \<Rightarrow> string list \<Rightarrow> (string \<times> string \<times> string) list" where
  "paths_asset2 exclude_quotes g base reachable_from_base =
     concat (map (\<lambda>asset2.
       if asset2 = base then []
       else if asset2 \<in> set exclude_quotes then []
       else (case fst g asset2 of
               Some reachable_from_asset2 \<Rightarrow>
                 paths_asset3 exclude_quotes g base asset2 reachable_from_asset2
             | None \<Rightarrow> [])) reachable_from_base)"

definition get_triangular_symbols ::
  "Config \<Rightarrow> ExchangeRegistry \<Rightarrow> string \<Rightarrow> string list \<Rightarrow> (string \<times> string \<times> string) list" where
  "get_triangular_symbols config self exchange_name base_assets =
     (case markets self exchange_name of
        None \<Rightarrow> []
      | Some ms \<Rightarrow>
          let exclude_quotes = TRI_EXCLUDE_QUOTES config;
              g = group_markets exclude_quotes ms (Map.empty, Map.empty)
          in concat (map (\<lambda>base.
               (case fst g base of
                  None \<Rightarrow> []
                | Some reachable_from_base \<Rightarrow>
                    paths_asset2 exclude_quotes g base reachable_from_base)) base_assets))"

text \<open>
  The venue lists an active market \<open>base/quote\<close> whose quote is not excluded: what
  one hop of a cycle needs of the market list.
\<close>

definition offers_market :: "string list \<Rightarrow> (string \<times> MarketMeta) list \<Rightarrow> string \<Rightarrow> string \<Rightarrow> bool" where
  "offers_market exclude_quotes ms b q =
     list_ex (\<lambda>(symbol, market). active market \<and> mm_base market = b \<and> mm_quote market = q
                \<and> q \<notin> set exclude_quotes) ms"

section \<open>Fee manager (fees.py)\<close>

definition default_maker :: real where "default_maker = 0.0008"
definition default_taker :: real where "default_taker = 0.0015"

text \<open>The built-in table \<open>known_fees\<close>: exchange name to (maker, taker).\<close>

definition known_fees :: "string \<rightharpoonup> real \<times> real" where
  "known_fees = map_of
     [(''binance'', (0.0002, 0.0005)),
      (''okx'', (0.0008, 0.0010)),
      (''bybit'', (0.0001, 0.0006)),
      (''coinbase'', (0.0040, 0.0060)),
      (''kraken'', (0.0016, 0.0026)),
      (''kucoin'', (0.0008, 0.0010)),
      (''gateio'', (0.0015, 0.0020)),
      (''huobi'', (0.0015, 0.0020)),
      (''bitfinex'', (0.0010, 0.0020)),
      (''mexc'', (0.0000, 0.0020))]"

record FeeManager =
  fee_cache :: "string \<rightharpoonup> FeesPublic"
  env_overrides :: fee_overrides

text \<open>The constructor: an empty cache and the overrides read from the environment.\<close>

definition FeeManager_init :: "(string \<Rightarrow> real option) \<Rightarrow> (string \<times> string) list \<Rightarrow> FeeManager" where
  "FeeManager_init float environ =
     \<lparr>fee_cache = Map.empty, env_overrides = get_fee_overrides float environ\<rparr>"

definition get_fallback_fees :: "string \<Rightarrow> FeesPublic" where
  "get_fallback_fees exchange_name =
     (case known_fees exchange_name of
        Some known \<Rightarrow>
          \<lparr>maker = fst known, taker = snd known, source = Default,
           fp_exchange = exchange_name, symbol_specific = Map.empty\<rparr>
      | None \<Rightarrow>
          \<lparr>maker = default_maker, taker = default_taker, source = Default,
           fp_exchange = exchange_name, symbol_specific = Map.empty\<rparr>)"

text \<open>
  \<open>_fetch_public_fees\<close>: the published trading fees when the exchange is registered
  and publishes a non-empty table, with the per-market fees that differ from them; the
  fallback otherwise. A \<open>None\<close> among the values handed to \<open>FeesPublic\<close> (the
  exchange-wide maker or taker, or a component of a per-market pair) fails the validation
  of the record; the handler of the function logs it and the fallback is returned.
\<close>

definition fetch_public_fees :: "ExchangeRegistry \<Rightarrow> string \<Rightarrow> FeesPublic" where
  "fetch_public_fees registry exchange_name =
     (case get_exchange registry exchange_name of
        None \<Rightarrow> get_fallback_fees exchange_name
      | Some exchange \<Rightarrow>
          (if trading_fees exchange \<noteq> [] then
             let mk = (case map_of (trading_fees exchange) ''maker'' of
                         Some v \<Rightarrow> v | None \<Rightarrow> Some default_maker);
                 tk = (case map_of (trading_fees exchange) ''taker'' of
                         Some v \<Rightarrow> v | None \<Rightarrow> Some default_taker);
                 listed = map fst (get_markets registry exchange_name);
                 specific = (\<lambda>symbol.
                   if symbol \<in> set listed then
                     (case ccxt_markets exchange symbol of
                        None \<Rightarrow> None
                      | Some market \<Rightarrow>
                          let symbol_maker = (case market_maker market of
                                                Some v \<Rightarrow> v | None \<Rightarrow> mk);
                              symbol_taker = (case market_taker market of
                                                Some v \<Rightarrow> v | None \<Rightarrow> tk)
                          in if symbol_maker \<noteq> mk \<or> symbol_taker \<noteq> tk
                             then Some (symbol_maker, symbol_taker) else None)
                   else None)
             in (case (mk, tk) of
                   (Some m, Some t) \<Rightarrow>
                     if list_ex (\<lambda>symbol.
                          case specific symbol of
                            None \<Rightarrow> False
                          | Some (sm, st) \<Rightarrow> sm = None \<or> st = None) listed
                     then get_fallback_fees exchange_name
                     else
                       \<lparr>maker = m, taker = t, source = Public,
                        fp_exchange = exchange_name,
                        symbol_specific = (\<lambda>symbol.
                          case specific symbol of
                            Some (Some sm, Some st) \<Rightarrow> Some (sm, st)
                          | _ \<Rightarrow> None)\<rparr>
                 | _ \<Rightarrow> get_fallback_fees exchange_name)
           else get_fallback_fees exchange_name))"

text \<open>\<open>symbol or 'default'\<close>: \<open>None\<close> and the empty string give \<open>'default'\<close>.\<close>

definition cache_key :: "string \<Rightarrow> string option \<Rightarrow> string" where
  "cache_key exchange_name symbol =
     exchange_name @ ''_'' @
       (case symbol of None \<Rightarrow> ''default'' | Some s \<Rightarrow> (if s = [] then ''default'' else s))"

text \<open>
  \<open>FeeManager.get_fees\<close>: the cached entry if there is one; otherwise the fetched
  fees with the overrides of the environment applied, stored in the cache.
\<close>

definition FeeManager_get_fees ::
  "ExchangeRegistry \<Rightarrow> FeeManager \<Rightarrow> string \<Rightarrow> string option \<Rightarrow> FeesPublic \<times> FeeManager" where
  "FeeManager_get_fees registry self exchange_name symbol =
     (let key = cache_key exchange_name symbol in
      case fee_cache self key of
        Some cached \<Rightarrow> (cached, self)
      | None \<Rightarrow>
          let fees = fetch_public_fees registry exchange_name;
              fees2 =
                (case env_overrides self exchange_name of
                   None \<Rightarrow> fees
                 | Some overrides \<Rightarrow>
                     let fees1 = (case overrides ''maker'' of
                                    Some m \<Rightarrow> fees\<lparr>maker := m, source := Env\<rparr>
                                  | None \<Rightarrow> fees)
                     in (case overrides ''taker'' of
                           Some t \<Rightarrow> fees1\<lparr>taker := t, source := Env\<rparr>
                         | None \<Rightarrow> fees1))
          in (fees2, self\<lparr>fee_cache := (fee_cache self)(key \<mapsto> fees2)\<rparr>))"

section \<open>Cross-exchange engine (engine.py)\<close>

record ArbitrageEngine =
  order_books :: "string \<times> string \<rightharpoonup> OrderBook"
  last_scan_time :: real

definition update_order_book :: "ArbitrageEngine \<Rightarrow> OrderBook \<Rightarrow> ArbitrageEngine" where
  "update_order_book self order_book =
     (let key = (ob_exchange order_book, ob_symbol order_book)
      in self\<lparr>order_books := (order_books self)(key \<mapsto> order_book)\<rparr>)"

text \<open>\<open>_is_websocket_data\<close> at clock reading \<open>now\<close>: no book older than 5 seconds.\<close>

fun is_websocket_data :: "real \<Rightarrow> OrderBook list \<Rightarrow> bool" where
  "is_websocket_data now [] = True"
| "is_websocket_data now (book # books) =
     (if now - ob_timestamp book > 5 then False else is_websocket_data now books)"

text \<open>
  \<open>_check_opportunity\<close>. The fee manager is threaded through; \<open>now_ts\<close> and
  \<open>now_ws\<close> are the two clock readings taken when the record is built. A zero
  midpoint, which needs a negative price or a fee outside the unit interval, has no
  quotient: the model returns \<open>None\<close> there, as the handler of the function does
  when the division raises.
\<close>

definition check_opportunity ::
  "Config \<Rightarrow> ExchangeRegistry \<Rightarrow> FeeManager \<Rightarrow> real \<Rightarrow> real \<Rightarrow> string \<Rightarrow> string \<Rightarrow> string
    \<Rightarrow> (string \<rightharpoonup> OrderBook) \<Rightarrow> Opportunity option \<times> FeeManager" where
  "check_opportunity config registry fm now_ts now_ws symbol buy_ex sell_ex symbol_books =
     (case symbol_books buy_ex of
        None \<Rightarrow> (None, fm)
      | Some buy_book \<Rightarrow>
     (case symbol_books sell_ex of
        None \<Rightarrow> (None, fm)
      | Some sell_book \<Rightarrow>
          if asks buy_book = [] \<or> bids sell_book = [] then (None, fm)
          else
            let (buy_fees_obj, fm1) = FeeManager_get_fees registry fm buy_ex (Some symbol);
                (sell_fees_obj, fm2) = FeeManager_get_fees registry fm1 sell_ex (Some symbol);
                target_notional = MIN_NOTIONAL config;
                buy_vwap = calculate_buy_vwap (asks buy_book) target_notional
            in
            if \<not> fully_filled buy_vwap then (None, fm2)
            else
              let sell_vwap = calculate_sell_vwap (bids sell_book) target_notional in
              if \<not> fully_filled sell_vwap then (None, fm2)
              else
                let buy_before = vwap_price buy_vwap;
                    sell_before = vwap_price sell_vwap;
                    buy_taker_fee = snd (FeesPublic_get_fees buy_fees_obj (Some symbol));
                    buy_after = buy_before * (1 + buy_taker_fee);
                    sell_taker_fee = snd (FeesPublic_get_fees sell_fees_obj (Some symbol));
                    sell_after = sell_before * (1 - sell_taker_fee)
                in
                if sell_after \<le> buy_after then (None, fm2)
                else
                  let mid_price = (buy_after + sell_after) / 2 in
                  if mid_price = 0 then (None, fm2)
                  else
                    let spread = (sell_after - buy_after) / mid_price * 10000 in
                    if spread < MIN_SPREAD_BPS config then (None, fm2)
                    else
                      (Some \<lparr>opp_symbol = symbol,
                             buy_exchange = buy_ex,
                             sell_exchange = sell_ex,
                             buy_price_before_fees = buy_before,
                             sell_price_before_fees = sell_before,
                             buy_price_after_fees = buy_after,
                             sell_price_after_fees = sell_after,
                             spread_bps = spread,
                             opp_notional = target_notional,
                             buy_depth_levels = levels_used buy_vwap,
                             sell_depth_levels = levels_used sell_vwap,
                             buy_fees = FeesPublic_get_fees buy_fees_obj (Some symbol),
                             sell_fees = FeesPublic_get_fees sell_fees_obj (Some symbol),
                             opp_timestamp = now_ts,
                             opp_mode = (if is_websocket_data now_ws [buy_book, sell_book]
                                         then ''ws'' else ''rest'')\<rparr>,
                       fm2)))"

section \<open>Triangular engine (tri_engine.py)\<close>

record TriangularArbitrageEngine =
  tri_order_books :: "string \<times> string \<rightharpoonup> OrderBook"
  triangular_paths :: "string \<rightharpoonup> (string \<times> string \<times> string) list"
  tri_last_scan_time :: real
  path_cache_time :: "string \<rightharpoonup> real"

definition tri_update_order_book ::
  "TriangularArbitrageEngine \<Rightarrow> OrderBook \<Rightarrow> TriangularArbitrageEngine" where
  "tri_update_order_book self order_book =
     (let key = (ob_exchange order_book, ob_symbol order_book)
      in self\<lparr>tri_order_books := (tri_order_books self)(key \<mapsto> order_book)\<rparr>)"








section \<open>Alert manager (alert.py)\<close>

text \<open>
  The state of the alert manager that the producer side reads and writes: the switch
  \<open>enabled\<close>, the deduplication table and the unbounded send queue.
\<close>

record AlertManager =
  enabled :: bool
  sent_alerts :: "string \<rightharpoonup> real"
  send_queue :: "string list"

definition alert_ttl :: real where "alert_ttl = 30"

definition clean_old_alerts :: "AlertManager \<Rightarrow> real \<Rightarrow> AlertManager" where
  "clean_old_alerts self now =
     self\<lparr>sent_alerts := (\<lambda>key.
       case sent_alerts self key of
         None \<Rightarrow> None
       | Some ts \<Rightarrow> (if now - ts > alert_ttl then None else Some ts))\<rparr>"

text \<open>\<open>_is_duplicate\<close> cleans the table first, so it returns the state as well.\<close>

definition is_duplicate :: "AlertManager \<Rightarrow> real \<Rightarrow> string \<Rightarrow> bool \<times> AlertManager" where
  "is_duplicate self now dedupe_key =
     (let self1 = clean_old_alerts self now in
      case sent_alerts self1 dedupe_key of
        Some ts \<Rightarrow> (now - ts < alert_ttl, self1)
      | None \<Rightarrow> (False, self1))"

definition mark_sent :: "AlertManager \<Rightarrow> real \<Rightarrow> string \<Rightarrow> AlertManager" where
  "mark_sent self now dedupe_key = self\<lparr>sent_alerts := (sent_alerts self)(dedupe_key \<mapsto> now)\<rparr>"

text \<open>
  The common body of \<open>send_cross_exchange_alert\<close> and \<open>send_triangular_alert\<close>:
  \<open>t_check\<close> is the clock reading inside \<open>_is_duplicate\<close>, \<open>t_mark\<close> the one inside
  \<open>_mark_sent\<close>.
\<close>

definition send_alert ::
  "AlertManager \<Rightarrow> string \<Rightarrow> string \<Rightarrow> real \<Rightarrow> real \<Rightarrow> bool \<times> AlertManager" where
  "send_alert self dedupe_key message t_check t_mark =
     (if \<not> enabled self then (False, self)
      else
        let (dup, self1) = is_duplicate self t_check dedupe_key in
        if dup then (False, self1)
        else
          let self2 = self1\<lparr>send_queue := send_queue self1 @ [message]\<rparr>
          in (True, mark_sent self2 t_mark dedupe_key))"

text \<open>The message formatters print floats; they are parameters of the model.\<close>

definition send_cross_exchange_alert ::
  "(Opportunity \<Rightarrow> string) \<Rightarrow> AlertManager \<Rightarrow> Opportunity \<Rightarrow> real \<Rightarrow> real \<Rightarrow> bool \<times> AlertManager" where
  "send_cross_exchange_alert format_cross self opportunity t_check t_mark =
     send_alert self (Opportunity_dedupe_key opportunity) (format_cross opportunity) t_check t_mark"

definition send_triangular_alert ::
  "(TriOpportunity \<Rightarrow> string) \<Rightarrow> AlertManager \<Rightarrow> TriOpportunity \<Rightarrow> real \<Rightarrow> real \<Rightarrow> bool \<times> AlertManager" where
  "send_triangular_alert format_tri self opportunity t_check t_mark =
     send_alert self (TriOpportunity_dedupe_key opportunity) (format_tri opportunity) t_check t_mark"

text \<open>
  A run of the single producer: each submission is a cross or a triangular opportunity
  with its two clock readings; the run returns the result of every submission, in order.
\<close>

datatype submission = Cross Opportunity | Tri TriOpportunity

fun submission_key :: "submission \<Rightarrow> string" where
  "submission_key (Cross opp) = Opportunity_dedupe_key opp"
| "submission_key (Tri opp) = TriOpportunity_dedupe_key opp"

fun submit ::
  "(Opportunity \<Rightarrow> string) \<Rightarrow> (TriOpportunity \<Rightarrow> string) \<Rightarrow> AlertManager
    \<Rightarrow> submission \<times> real \<times> real \<Rightarrow> bool \<times> AlertManager" where
  "submit fc ft self (Cross opp, t_check, t_mark) = send_cross_exchange_alert fc self opp t_check t_mark"
| "submit fc ft self (Tri opp, t_check, t_mark) = send_triangular_alert ft self opp t_check t_mark"

fun run_alerts ::
  "(Opportunity \<Rightarrow> string) \<Rightarrow> (TriOpportunity \<Rightarrow> string) \<Rightarrow> AlertManager
    \<Rightarrow> (submission \<times> real \<times> real) list \<Rightarrow> bool list" where
  "run_alerts fc ft self [] = []"
| "run_alerts fc ft self (ev # evs) =
     (let (sent, self1) = submit fc ft self ev in sent # run_alerts fc ft self1 evs)"

text \<open>The clock does not run backwards over a run that starts at \<open>t0\<close>.\<close>

fun clock_ordered :: "real \<Rightarrow> (submission \<times> real \<times> real) list \<Rightarrow> bool" where
  "clock_ordered t0 [] = True"
| "clock_ordered t0 ((s, t_check, t_mark) # evs) =
     (t0 \<le> t_check \<and> t_check \<le> t_mark \<and> clock_ordered t_mark evs)"

text \<open>
  The table still accounts for an alert with key \<open>k\<close> recorded at time \<open>m\<close>, seen
  from a time \<open>lo\<close>: the key holds a time stamp from \<open>m\<close> on, or it has been evicted,
  which takes more than the time to live.
\<close>

definition tracked :: "AlertManager \<Rightarrow> string \<Rightarrow> real \<Rightarrow> real \<Rightarrow> bool" where
  "tracked self k m lo =
     (case sent_alerts self k of
        Some ts \<Rightarrow> m \<le> ts \<and> ts \<le> lo
      | None \<Rightarrow> m + alert_ttl \<le> lo)"

section \<open>Example data\<close>

text \<open>
  The cross-detection scenario: venue A asks 50 000, venue B bids 50 200, one unit each,
  target notional 100, threshold 10 bps. The venues are two of the built-in fee table
  with taker fee 0.001.
\<close>

definition scenario_config :: Config where
  "scenario_config =
     \<lparr>MIN_SPREAD_BPS = 10, MIN_TRI_GAIN_BPS = 30, MIN_NOTIONAL = 100,
      TRI_BASES = [''USDT'', ''USDC'', ''BTC''], TRI_EXCLUDE_QUOTES = []\<rparr>"

definition empty_registry :: ExchangeRegistry where
  "empty_registry = \<lparr>exchanges = Map.empty, markets = Map.empty\<rparr>"

definition book_a :: OrderBook where
  "book_a =
     \<lparr>ob_symbol = ''BTC/USDT'', ob_exchange = ''okx'',
      bids = [\<lparr>price = 49900, amount = 1\<rparr>], asks = [\<lparr>price = 50000, amount = 1\<rparr>],
      ob_timestamp = 0, nonce = None\<rparr>"

definition book_b :: OrderBook where
  "book_b =
     \<lparr>ob_symbol = ''BTC/USDT'', ob_exchange = ''kucoin'',
      bids = [\<lparr>price = 50200, amount = 1\<rparr>], asks = [\<lparr>price = 50300, amount = 1\<rparr>],
      ob_timestamp = 0, nonce = None\<rparr>"

definition scenario_opportunity :: Opportunity where
  "scenario_opportunity =
     \<lparr>opp_symbol = ''BTC/USDT'', buy_exchange = ''okx'', sell_exchange = ''kucoin'',
      buy_price_before_fees = 50000, sell_price_before_fees = 50200,
      buy_price_after_fees = 50050, sell_price_after_fees = 250749 / 5,
      spread_bps = 9980000 / 500999, opp_notional = 100,
      buy_depth_levels = 1, sell_depth_levels = 1,
      buy_fees = (0.0008, 0.001), sell_fees = (0.0008, 0.001),
      opp_timestamp = 1, opp_mode = ''ws''\<rparr>"

text \<open>A triangular record on the cycle USDT, BTC, ETH with notional 100.\<close>

definition scenario_tri_opportunity :: TriOpportunity where
  "scenario_tri_opportunity =
     \<lparr>tri_exchange = ''binance'', base_asset = ''USDT'', path = (''USDT'', ''BTC'', ''ETH''),
      start_amount = 100, end_amount = 100.4, gain_bps = 40, tri_notional = 100,
      leg1_symbol = ''BTC/USDT'', leg1_price = 50000, leg1_side = ''sell'',
      leg2_symbol = ''ETH/BTC'', leg2_price = 0.05, leg2_side = ''sell'',
      leg3_symbol = ''ETH/USDT'', leg3_price = 2510, leg3_side = ''sell'',
      tri_fees = (0.0002, 0.0005), tri_timestamp = 1\<rparr>"

text \<open>A venue that lists the markets BTC/USDT, USDT/TRY and BTC/TRY, all active.\<close>

definition market_meta :: "string \<Rightarrow> string \<Rightarrow> string \<Rightarrow> string \<times> MarketMeta" where
  "market_meta venue b q =
     (b @ ''/'' @ q,
      \<lparr>mm_symbol = b @ ''/'' @ q, mm_base = b, mm_quote = q, active = True,
       price_precision = 8, amount_precision = 8, min_amount = None,
       mm_min_notional = None, mm_exchange = venue\<rparr>)"

definition try_registry :: ExchangeRegistry where
  "try_registry =
     \<lparr>exchanges = Map.empty,
      markets = [''binance'' \<mapsto>
        [market_meta ''binance'' ''BTC'' ''USDT'',
         market_meta ''binance'' ''USDT'' ''TRY'',
         market_meta ''binance'' ''BTC'' ''TRY'']]\<rparr>"

text \<open>
  The same cross opportunity submitted three times within five seconds and once more
  after forty seconds, to an enabled manager with an empty table.
\<close>

definition fresh_alert_manager :: AlertManager where
  "fresh_alert_manager = \<lparr>enabled = True, sent_alerts = Map.empty, send_queue = []\<rparr>"

definition repeated_submissions :: "(submission \<times> real \<times> real) list" where
  "repeated_submissions =
     [(Cross scenario_opportunity, 0, 0), (Cross scenario_opportunity, 2, 2),
      (Cross scenario_opportunity, 4, 4), (Cross scenario_opportunity, 40, 40)]"

text \<open>
  A registry in which binance publishes maker and taker fees of 0.001; three
  environments, which set \<open>BINANCE_TAKER_FEE\<close>, \<open>EXCHANGE_A_TAKER_FEE\<close>, and
  \<open>BINANCE_TAKER_FEE\<close> followed by \<open>BINANCE_TAKER_FEE_OLD\<close>; and a \<open>float\<close> that
  parses the two literals in use.
\<close>

definition binance_registry :: ExchangeRegistry where
  "binance_registry =
     \<lparr>exchanges = [''binance'' \<mapsto>
        \<lparr>trading_fees = [(''maker'', Some 0.001), (''taker'', Some 0.001)],
         ccxt_markets = Map.empty\<rparr>],
      markets = Map.empty\<rparr>"

definition float_literal :: "string \<Rightarrow> real option" where
  "float_literal s =
     (if s = ''0.0005'' then Some 0.0005 else if s = ''0.9'' then Some 0.9 else None)"

definition binance_environ :: "(string \<times> string) list" where
  "binance_environ = [(''PATH'', ''/usr/bin''), (''BINANCE_TAKER_FEE'', ''0.0005'')]"

definition exchange_a_environ :: "(string \<times> string) list" where
  "exchange_a_environ = [(''PATH'', ''/usr/bin''), (''EXCHANGE_A_TAKER_FEE'', ''0.0005'')]"

definition binance_old_environ :: "(string \<times> string) list" where
  "binance_old_environ =
     [(''PATH'', ''/usr/bin''), (''BINANCE_TAKER_FEE'', ''0.0005''),
      (''BINANCE_TAKER_FEE_OLD'', ''0.9'')]"






text \<open>Stand-ins for the two message formatters.\<close>

definition cross_text :: "Opportunity \<Rightarrow> string" where
  "cross_text opp = ''cross''"

definition tri_text :: "TriOpportunity \<Rightarrow> string" where
  "tri_text opp = ''tri''"

section \<open>Properties of the VWAP primitive\<close>

lemma length_cumsum_from: "length (cumsum_from a xs) = length xs"
  by (induction xs arbitrary: a) simp_all

lemma cumsum_from_nth:
  "i < length xs \<Longrightarrow> cumsum_from a xs ! i = a + sum_list (take (Suc i) xs)"
proof (induction xs arbitrary: a i)
  case Nil
  then show ?case by simp
next
  case (Cons x xs)
  show ?case
  proof (cases i)
    case 0
    then show ?thesis by simp
  next
    case (Suc j)
    with Cons.prems have "j < length xs" by simp
    from Cons.IH [OF this, of "a + x"] Suc show ?thesis by simp
  qed
qed

lemma length_cumsum: "length (cumsum xs) = length xs"
  by (simp add: cumsum_def length_cumsum_from)

lemma cumsum_nth: "i < length xs \<Longrightarrow> cumsum xs ! i = sum_list (take (Suc i) xs)"
  by (simp add: cumsum_def cumsum_from_nth)

lemma where_ge_hd:
  assumes "where_ge c t \<noteq> []"
  shows "hd (where_ge c t) < length c"
    and "c ! hd (where_ge c t) \<ge> t"
    and "\<forall>j < hd (where_ge c t). c ! j < t"
proof -
  let ?f = "where_ge c t"
  have mem: "hd ?f \<in> set ?f" using assms by simp
  then show "hd ?f < length c" and "c ! hd ?f \<ge> t"
    by (simp_all add: where_ge_def)
  have srt: "sorted ?f" by (simp add: where_ge_def sorted_wrt_filter)
  show "\<forall>j < hd ?f. c ! j < t"
  proof (intro allI impI, rule ccontr)
    fix j assume j: "j < hd ?f" and "\<not> c ! j < t"
    moreover have "hd ?f < length c" using mem by (simp add: where_ge_def)
    ultimately have "j \<in> set ?f" by (simp add: where_ge_def)
    with srt assms have "hd ?f \<le> j" by (cases ?f) auto
    with j show False by simp
  qed
qed

lemma where_ge_0:
  assumes "c \<noteq> []" "c ! 0 \<ge> t"
  shows "where_ge c t \<noteq> []" and "hd (where_ge c t) = 0"
proof -
  have "0 \<in> set (where_ge c t)" using assms by (simp add: where_ge_def)
  then show ne: "where_ge c t \<noteq> []" by auto
  from where_ge_hd(3) [OF ne] assms(2) show "hd (where_ge c t) = 0"
    by (metis not_gr_zero not_less)
qed

text \<open>
  Claim C4. When the first level alone covers the target notional (\<open>0 < N \<le> p\<^sub>1 q\<^sub>1\<close>),
  \<open>calculate_vwap\<close> returns the first price, one level used, volume \<open>N / p\<^sub>1\<close>
  and a full fill; for the levels (100, 1), (101, 2), (102, 3) and \<open>N = 50\<close> the result
  is (100, 0.5, 1, true).
\<close>

theorem single_level:
  assumes "levels \<noteq> []" and "0 < N" and "N \<le> price (hd levels) * amount (hd levels)"
  shows "calculate_vwap levels N side =
    \<lparr>vwap_price = price (hd levels), total_volume = N / price (hd levels),
     levels_used = 1, fully_filled = True\<rparr>"
proof -
  obtain l ls where ls: "levels = l # ls" using assms(1) by (cases levels) auto
  let ?c = "cumsum (map2 (*) (map price levels) (map amount levels))"
  have c0: "?c \<noteq> []" "?c ! 0 \<ge> N"
    using assms(3) by (simp_all add: ls cumsum_def)
  note w = where_ge_0 [OF c0]
  show ?thesis
    using w assms(2) by (simp add: calculate_vwap_def Let_def ls)
qed

theorem single_level_witness:
  "calculate_vwap [\<lparr>price = 100, amount = 1\<rparr>, \<lparr>price = 101, amount = 2\<rparr>,
      \<lparr>price = 102, amount = 3\<rparr>] 50 ''buy'' =
    \<lparr>vwap_price = 100, total_volume = 0.5, levels_used = 1, fully_filled = True\<rparr>"
  using single_level [of "[\<lparr>price = 100, amount = 1\<rparr>, \<lparr>price = 101, amount = 2\<rparr>,
      \<lparr>price = 102, amount = 3\<rparr>]" 50 "''buy''"]
  by simp

text \<open>
  Claim C9. The \<open>side\<close> argument of \<open>calculate_vwap\<close> has no influence on the
  result, so \<open>calculate_buy_vwap\<close> and \<open>calculate_sell_vwap\<close> are the same
  function of the levels and the notional.
\<close>

theorem side_irrelevant:
  "calculate_vwap levels N side = calculate_vwap levels N side'
   \<and> calculate_buy_vwap levels N = calculate_sell_vwap levels N"
  by (simp add: calculate_vwap_def calculate_buy_vwap_def calculate_sell_vwap_def)

lemma map2_price_amount:
  "map2 (*) (map price xs) (map amount xs) = map (\<lambda>l. price l * amount l) xs"
  by (induction xs) simp_all

lemma weighted_sum_bounds:
  assumes "\<forall>l \<in> set xs. lo \<le> price l \<and> price l \<le> hi \<and> 0 \<le> amount l"
  shows "lo * sum_list (map amount xs) \<le> sum_list (map (\<lambda>l. price l * amount l) xs)"
    and "sum_list (map (\<lambda>l. price l * amount l) xs) \<le> hi * sum_list (map amount xs)"
  using assms
proof (induction xs)
  case Nil
  { case 1 show ?case by simp }
  { case 2 show ?case by simp }
next
  case (Cons x xs)
  { case 1
    then have "lo * amount x \<le> price x * amount x" by (simp add: mult_right_mono)
    moreover have "lo * sum_list (map amount xs) \<le> sum_list (map (\<lambda>l. price l * amount l) xs)"
      using Cons.IH(1) 1 by simp
    ultimately show ?case by (simp add: distrib_left) }
  { case 2
    then have "price x * amount x \<le> hi * amount x" by (simp add: mult_right_mono)
    moreover have "sum_list (map (\<lambda>l. price l * amount l) xs) \<le> hi * sum_list (map amount xs)"
      using Cons.IH(2) 2 by simp
    ultimately show ?case by (simp add: distrib_left) }
qed

lemma sorted_price_nth:
  assumes "sorted (map price levels)" "i \<le> j" "j < length levels"
  shows "price (levels ! i) \<le> price (levels ! j)"
proof -
  have "map price levels ! i \<le> map price levels ! j"
    using assms by (intro sorted_nth_mono) simp_all
  then show ?thesis using assms by simp
qed

text \<open>
  In exact arithmetic the primitive has the property that claim C2 states: for a
  non-empty list of levels with strictly positive prices and amounts, sorted ascending by
  price, and a target notional \<open>N > 0\<close> that the whole side covers
  (\<open>N \<le> \<Sum> p\<^sub>i q\<^sub>i\<close>), it reports a full fill, and its VWAP lies between the price of
  the first level and the price of the last level used. This is a property of the
  algorithm. The program evaluates the same expressions in double precision, and there
  the running sum of the rounded products can end below a target that the side covers:
  for the levels (2.6, 1.1), (3.0, 6.6), (4.8, 0.5), (9.1, 0.2) and \<open>N = 26.88\<close> it
  ends at 26.879999999999995, and the program reports no full fill.
\<close>

lemma vwap_bounds_exact:
  assumes ne: "levels \<noteq> []"
    and pos: "\<forall>l \<in> set levels. 0 < price l \<and> 0 < amount l"
    and srt: "sorted (map price levels)"
    and N: "0 < N"
    and enough: "N \<le> sum_list (map (\<lambda>l. price l * amount l) levels)"
  shows "fully_filled (calculate_vwap levels N side)
    \<and> 1 \<le> levels_used (calculate_vwap levels N side)
    \<and> levels_used (calculate_vwap levels N side) \<le> int (length levels)
    \<and> price (levels ! 0) \<le> vwap_price (calculate_vwap levels N side)
    \<and> vwap_price (calculate_vwap levels N side)
        \<le> price (levels ! (nat (levels_used (calculate_vwap levels N side)) - 1))"
proof -
  let ?ns = "map2 (*) (map price levels) (map amount levels)"
  let ?c = "cumsum ?ns"
  let ?ca = "cumsum (map amount levels)"
  let ?n = "length levels"
  have n: "0 < ?n" using ne by simp
  have lc: "length ?c = ?n" by (simp add: length_cumsum)
  have "?c ! (?n - 1) = sum_list ?ns"
    using n by (simp add: cumsum_nth)
  then have "N \<le> ?c ! (?n - 1)" using enough by (simp add: map2_price_amount)
  then have "?n - 1 \<in> set (where_ge ?c N)" using n lc by (simp add: where_ge_def)
  then have wne: "where_ge ?c N \<noteq> []" by auto
  define k where "k = hd (where_ge ?c N)"
  have k: "k < ?n" and ck: "N \<le> ?c ! k" and kmin: "\<forall>j<k. ?c ! j < N"
    using where_ge_hd [OF wne] lc by (simp_all add: k_def)
  show ?thesis
  proof (cases "k = 0")
    case True
    then show ?thesis
      using wne N ne n by (simp add: calculate_vwap_def Let_def k_def [symmetric] Suc_le_eq)
  next
    case False
    then have k1: "k - 1 < k" by simp
    define R where "R = N - ?c ! (k - 1)"
    define pk where "pk = price (levels ! k)"
    define a where "a = R / pk"
    define A where "A = ?ca ! (k - 1) + a"
    define W where "W = sum_list (map2 (*) (take k (map price levels)) (take k (map amount levels)))
                         + pk * a"
    have R: "0 < R" using kmin k1 by (simp add: R_def)
    have pkpos: "0 < pk" using pos k by (simp add: pk_def)
    have apos: "0 < a" using R pkpos by (simp add: a_def)
    have caq: "?ca ! (k - 1) = sum_list (map amount (take k levels))"
      using k False by (simp add: cumsum_nth take_map)
    have Weq: "W = sum_list (map (\<lambda>l. price l * amount l) (take k levels)) + pk * a"
      by (simp add: W_def take_map map2_price_amount)
    have inner: "\<forall>l \<in> set (take k levels).
        price (levels ! 0) \<le> price l \<and> price l \<le> pk \<and> 0 \<le> amount l"
    proof
      fix l assume "l \<in> set (take k levels)"
      then obtain j where j: "j < k" and l: "l = levels ! j"
        using k by (auto simp: in_set_conv_nth)
      have "price (levels ! 0) \<le> price (levels ! j)"
        using sorted_price_nth [OF srt, of 0 j] j k by simp
      moreover have "price (levels ! j) \<le> price (levels ! k)"
        using sorted_price_nth [OF srt, of j k] j k by simp
      moreover have "0 \<le> amount (levels ! j)"
        using pos j k by (simp add: less_imp_le)
      ultimately show "price (levels ! 0) \<le> price l \<and> price l \<le> pk \<and> 0 \<le> amount l"
        by (simp add: l pk_def)
    qed
    have p0k: "price (levels ! 0) \<le> pk"
      using sorted_price_nth [OF srt, of 0 k] k by (simp add: pk_def)
    have sumq: "0 \<le> sum_list (map amount (take k levels))"
      using inner by (intro sum_list_nonneg) auto
    have Aeq: "A = sum_list (map amount (take k levels)) + a"
      unfolding A_def caq ..
    have Apos: "0 < A" using sumq apos unfolding Aeq by linarith
    have lower: "price (levels ! 0) * A \<le> W"
    proof -
      have "price (levels ! 0) * a \<le> pk * a" using p0k apos by (simp add: mult_right_mono)
      with weighted_sum_bounds(1) [OF inner] show ?thesis
        unfolding Aeq Weq by (simp add: distrib_left)
    qed
    have upper: "W \<le> pk * A"
      using weighted_sum_bounds(2) [OF inner] unfolding Aeq Weq by (simp add: distrib_left)
    have res: "calculate_vwap levels N side =
        \<lparr>vwap_price = W / A, total_volume = A, levels_used = int k + 1, fully_filled = True\<rparr>"
      using wne N ne False Apos k
      unfolding W_def A_def a_def R_def pk_def
      by (simp add: calculate_vwap_def Let_def k_def [symmetric])
    have "price (levels ! 0) \<le> W / A" using lower Apos by (simp add: pos_le_divide_eq)
    moreover have "W / A \<le> pk" using upper Apos by (simp add: pos_divide_le_eq)
    moreover have "nat (int k + 1) - 1 = k" by linarith
    ultimately show ?thesis using k unfolding res pk_def by simp
  qed
qed

section \<open>Properties of the engines\<close>

text \<open>
  Claim C10. \<open>update_order_book\<close>, on the cross-exchange engine and on the triangular
  engine, stores the snapshot at the key (exchange, symbol) of the snapshot and changes
  nothing else: the entry of every other key is the one before, and the scan time, the
  cached paths and the cache times are the ones before.
\<close>

theorem update_order_book_frame:
  "order_books (update_order_book e b) (ob_exchange b, ob_symbol b) = Some b
   \<and> (\<forall>k. k \<noteq> (ob_exchange b, ob_symbol b) \<longrightarrow>
          order_books (update_order_book e b) k = order_books e k)
   \<and> last_scan_time (update_order_book e b) = last_scan_time e
   \<and> tri_order_books (tri_update_order_book t b) (ob_exchange b, ob_symbol b) = Some b
   \<and> (\<forall>k. k \<noteq> (ob_exchange b, ob_symbol b) \<longrightarrow>
          tri_order_books (tri_update_order_book t b) k = tri_order_books t k)
   \<and> triangular_paths (tri_update_order_book t b) = triangular_paths t
   \<and> path_cache_time (tri_update_order_book t b) = path_cache_time t
   \<and> tri_last_scan_time (tri_update_order_book t b) = tri_last_scan_time t"
  by (simp add: update_order_book_def tri_update_order_book_def)

theorem update_order_book_frame_witness:
  "(''okx'', ''BTC/USDT'') \<noteq> (ob_exchange book_b, ob_symbol book_b)
   \<and> order_books (update_order_book
        \<lparr>order_books = [(''okx'', ''BTC/USDT'') \<mapsto> book_a], last_scan_time = 0\<rparr> book_b)
        (''okx'', ''BTC/USDT'') = Some book_a
   \<and> tri_order_books (tri_update_order_book
        \<lparr>tri_order_books = [(''okx'', ''BTC/USDT'') \<mapsto> book_a], triangular_paths = Map.empty,
         tri_last_scan_time = 0, path_cache_time = Map.empty\<rparr> book_b)
        (''okx'', ''BTC/USDT'') = Some book_a"
  using update_order_book_frame [of
      "\<lparr>order_books = [(''okx'', ''BTC/USDT'') \<mapsto> book_a], last_scan_time = 0\<rparr>" book_b
      "\<lparr>tri_order_books = [(''okx'', ''BTC/USDT'') \<mapsto> book_a], triangular_paths = Map.empty,
         tri_last_scan_time = 0, path_cache_time = Map.empty\<rparr>"]
  by (simp add: book_b_def)

text \<open>
  Claim C1. Whenever \<open>_check_opportunity\<close> returns a record, the record has
  \<open>sell_price_after_fees > buy_price_after_fees\<close>, its \<open>spread_bps\<close> is at least
  \<open>MIN_SPREAD_BPS\<close>, and \<open>spread_bps\<close> is the difference of the two after-fee prices
  divided by their midpoint, times 10000.
\<close>

theorem cross_opportunity_invariants:
  assumes "check_opportunity config registry fm now_ts now_ws symbol buy_ex sell_ex symbol_books
             = (Some opp, fm')"
  shows "sell_price_after_fees opp > buy_price_after_fees opp
    \<and> spread_bps opp \<ge> MIN_SPREAD_BPS config
    \<and> spread_bps opp =
        (sell_price_after_fees opp - buy_price_after_fees opp)
          / ((buy_price_after_fees opp + sell_price_after_fees opp) / 2) * 10000"
  using assms
  by (auto simp: check_opportunity_def Let_def split: option.splits if_splits prod.splits)

lemma scenario_eval:
  "fst (check_opportunity scenario_config empty_registry (FeeManager_init float_literal []) 1 1
         ''BTC/USDT'' ''okx'' ''kucoin'' [''okx'' \<mapsto> book_a, ''kucoin'' \<mapsto> book_b])
     = Some scenario_opportunity"
  by (simp add: check_opportunity_def scenario_config_def empty_registry_def FeeManager_init_def
      get_fee_overrides_def book_a_def book_b_def scenario_opportunity_def
      FeeManager_get_fees_def cache_key_def fetch_public_fees_def get_exchange_def
      get_fallback_fees_def known_fees_def FeesPublic_get_fees_def
      calculate_buy_vwap_def calculate_sell_vwap_def calculate_vwap_def cumsum_def where_ge_def
      Let_def)

theorem cross_opportunity_invariants_witness:
  "fst (check_opportunity scenario_config empty_registry (FeeManager_init float_literal []) 1 1
         ''BTC/USDT'' ''okx'' ''kucoin'' [''okx'' \<mapsto> book_a, ''kucoin'' \<mapsto> book_b])
     = Some scenario_opportunity
   \<and> buy_price_after_fees scenario_opportunity < sell_price_after_fees scenario_opportunity
   \<and> MIN_SPREAD_BPS scenario_config \<le> spread_bps scenario_opportunity"
proof -
  let ?r = "check_opportunity scenario_config empty_registry (FeeManager_init float_literal []) 1 1
         ''BTC/USDT'' ''okx'' ''kucoin'' [''okx'' \<mapsto> book_a, ''kucoin'' \<mapsto> book_b]"
  have "?r = (Some scenario_opportunity, snd ?r)"
    using scenario_eval by (simp add: prod_eq_iff)
  from cross_opportunity_invariants [OF this] scenario_eval show ?thesis by simp
qed

section \<open>Deduplication keys\<close>

lemma py_int_nonneg: "0 \<le> x \<Longrightarrow> py_int x = \<lfloor>x\<rfloor>"
  by (simp add: py_int_def)

text \<open>
  Claim C6, as amended. The deduplication key of a cross opportunity is
  \<open>CROSS_buy_sell_symbol_n\<close> and that of a triangular opportunity is
  \<open>TRI_venue_base_a2_a3_n\<close>: the fields are joined by the underscore, and \<open>n\<close> is
  the notional truncated toward zero, which is its floor when the notional is not negative.
\<close>

theorem dedupe_key_format:
  "Opportunity_dedupe_key opp =
     py_join ''_'' [''CROSS'', buy_exchange opp, sell_exchange opp, opp_symbol opp,
                    py_str_int (py_int (opp_notional opp))]
   \<and> TriOpportunity_dedupe_key t =
     py_join ''_'' [''TRI'', tri_exchange t, fst (path t), fst (snd (path t)), snd (snd (path t)),
                    py_str_int (py_int (tri_notional t))]
   \<and> (0 \<le> opp_notional opp \<longrightarrow> Opportunity_dedupe_key opp = spec_cross_key ''_'' opp)
   \<and> (0 \<le> tri_notional t \<longrightarrow> TriOpportunity_dedupe_key t = spec_tri_key ''_'' t)"
  by (cases "path t")
     (simp add: Opportunity_dedupe_key_def TriOpportunity_dedupe_key_def spec_cross_key_def
        spec_tri_key_def py_int_nonneg)

theorem dedupe_key_format_witness:
  "0 \<le> opp_notional scenario_opportunity
   \<and> Opportunity_dedupe_key scenario_opportunity = ''CROSS_okx_kucoin_BTC/USDT_100''
   \<and> 0 \<le> tri_notional scenario_tri_opportunity
   \<and> TriOpportunity_dedupe_key scenario_tri_opportunity = ''TRI_binance_USDT_BTC_ETH_100''"
  using dedupe_key_format [of scenario_opportunity scenario_tri_opportunity]
  by (simp add: scenario_opportunity_def scenario_tri_opportunity_def spec_cross_key_def
      spec_tri_key_def py_str_int_def py_int_def digit_char_def)

text \<open>
  The keys of the two example records are not the pipe-separated strings
  \<open>CROSS|okx|kucoin|BTC/USDT|100\<close> and \<open>TRI|binance|USDT|BTC|ETH|100\<close>.
\<close>

theorem dedupe_key_pipe_counterexample:
  "Opportunity_dedupe_key scenario_opportunity \<noteq> spec_cross_key ''|'' scenario_opportunity
   \<and> spec_cross_key ''|'' scenario_opportunity = ''CROSS|okx|kucoin|BTC/USDT|100''
   \<and> TriOpportunity_dedupe_key scenario_tri_opportunity \<noteq> spec_tri_key ''|'' scenario_tri_opportunity
   \<and> spec_tri_key ''|'' scenario_tri_opportunity = ''TRI|binance|USDT|BTC|ETH|100''"
  by (simp add: Opportunity_dedupe_key_def TriOpportunity_dedupe_key_def spec_cross_key_def
      spec_tri_key_def scenario_opportunity_def scenario_tri_opportunity_def py_str_int_def
      py_int_def digit_char_def)

section \<open>Triangular path enumeration\<close>

lemma group_get_append:
  "set (group_get (group_append d k v) k') =
     (if k' = k then insert v (set (group_get d k)) else set (group_get d k'))"
  by (auto simp: group_get_def group_append_def split: option.splits)

lemma offers_market_Cons:
  "offers_market X ((s, m) # ms) b q \<longleftrightarrow>
     (active m \<and> mm_base m = b \<and> mm_quote m = q \<and> q \<notin> set X) \<or> offers_market X ms b q"
  by (simp add: offers_market_def)

lemma group_markets_by_base:
  "q \<in> set (group_get (fst (group_markets X ms (gb, gq))) b)
     \<Longrightarrow> q \<in> set (group_get gb b) \<or> offers_market X ms b q"
proof (induction ms arbitrary: gb gq)
  case Nil
  then show ?case by simp
next
  case (Cons sm ms)
  obtain s m where sm: "sm = (s, m)" by (cases sm)
  show ?case
  proof (cases "active m \<and> mm_quote m \<notin> set X")
    case False
    with Cons.prems have "q \<in> set (group_get (fst (group_markets X ms (gb, gq))) b)"
      by (auto simp: sm split: if_splits)
    from Cons.IH [OF this] show ?thesis by (auto simp: sm offers_market_Cons)
  next
    case True
    with Cons.prems have "q \<in> set (group_get (fst (group_markets X ms
        (group_append gb (mm_base m) (mm_quote m), group_append gq (mm_quote m) (mm_base m)))) b)"
      by (simp add: sm)
    from Cons.IH [OF this] True show ?thesis
      by (auto simp: sm offers_market_Cons group_get_append split: if_splits)
  qed
qed

lemma group_markets_by_quote:
  "b \<in> set (group_get (snd (group_markets X ms (gb, gq))) q)
     \<Longrightarrow> b \<in> set (group_get gq q) \<or> offers_market X ms b q"
proof (induction ms arbitrary: gb gq)
  case Nil
  then show ?case by simp
next
  case (Cons sm ms)
  obtain s m where sm: "sm = (s, m)" by (cases sm)
  show ?case
  proof (cases "active m \<and> mm_quote m \<notin> set X")
    case False
    with Cons.prems have "b \<in> set (group_get (snd (group_markets X ms (gb, gq))) q)"
      by (auto simp: sm split: if_splits)
    from Cons.IH [OF this] show ?thesis by (auto simp: sm offers_market_Cons)
  next
    case True
    with Cons.prems have "b \<in> set (group_get (snd (group_markets X ms
        (group_append gb (mm_base m) (mm_quote m), group_append gq (mm_quote m) (mm_base m)))) q)"
      by (simp add: sm)
    from Cons.IH [OF this] True show ?thesis
      by (auto simp: sm offers_market_Cons group_get_append split: if_splits)
  qed
qed

lemma grouped_by_base:
  assumes "fst (group_markets X ms (Map.empty, Map.empty)) b = Some l" "q \<in> set l"
  shows "offers_market X ms b q"
  using group_markets_by_base [of q X ms Map.empty Map.empty b] assms
  by (simp add: group_get_def)

lemma grouped_by_quote:
  assumes "snd (group_markets X ms (Map.empty, Map.empty)) q = Some l" "b \<in> set l"
  shows "offers_market X ms b q"
  using group_markets_by_quote [of b X ms Map.empty Map.empty q] assms
  by (simp add: group_get_def)

lemma paths_asset3_mem:
  assumes "(b, a2, a3) \<in> set (paths_asset3 X g base asset2 r2)"
  shows "b = base \<and> a2 = asset2 \<and> a3 \<in> set r2 \<and> a3 \<noteq> base \<and> a3 \<noteq> asset2 \<and> a3 \<notin> set X
    \<and> (\<exists>bs. snd g a3 = Some bs \<and> base \<in> set bs)"
  using assms
  by (auto simp: paths_asset3_def split: if_splits option.splits) (metis)

lemma paths_asset2_mem:
  assumes "(b, a2, a3) \<in> set (paths_asset2 X g base r1)"
  shows "b = base \<and> a2 \<in> set r1 \<and> a2 \<noteq> base \<and> a2 \<notin> set X
    \<and> (\<exists>r2. fst g a2 = Some r2 \<and> a3 \<in> set r2) \<and> a3 \<noteq> base \<and> a3 \<noteq> a2 \<and> a3 \<notin> set X
    \<and> (\<exists>bs. snd g a3 = Some bs \<and> base \<in> set bs)"
  using assms
  by (auto simp: paths_asset2_def split: if_splits option.splits dest!: paths_asset3_mem) (metis)

text \<open>
  Claim C7, as amended. Every cycle \<open>(b, a\<^sub>2, a\<^sub>3)\<close> returned by the path enumeration
  has \<open>b\<close> among the given base assets, \<open>a\<^sub>2\<close> different from \<open>b\<close> and not excluded,
  \<open>a\<^sub>3\<close> different from \<open>b\<close> and \<open>a\<^sub>2\<close> and not excluded, and the venue lists active
  markets \<open>b/a\<^sub>2\<close>, \<open>a\<^sub>2/a\<^sub>3\<close> and \<open>b/a\<^sub>3\<close> with non-excluded quotes: one market
  for each of the hops \<open>b \<rightarrow> a\<^sub>2 \<rightarrow> a\<^sub>3 \<rightarrow> b\<close>. The other base assets are not
  kept out of \<open>a\<^sub>2\<close> and \<open>a\<^sub>3\<close>.
\<close>

theorem triangular_paths_sound:
  assumes "(b, a2, a3) \<in> set (get_triangular_symbols config registry venue base_assets)"
  shows "b \<in> set base_assets
    \<and> a2 \<noteq> b \<and> a2 \<notin> set (TRI_EXCLUDE_QUOTES config)
    \<and> a3 \<noteq> b \<and> a3 \<noteq> a2 \<and> a3 \<notin> set (TRI_EXCLUDE_QUOTES config)
    \<and> offers_market (TRI_EXCLUDE_QUOTES config) (get_markets registry venue) b a2
    \<and> offers_market (TRI_EXCLUDE_QUOTES config) (get_markets registry venue) a2 a3
    \<and> offers_market (TRI_EXCLUDE_QUOTES config) (get_markets registry venue) b a3"
proof -
  let ?X = "TRI_EXCLUDE_QUOTES config"
  from assms obtain ms where ms: "markets registry venue = Some ms"
    by (cases "markets registry venue") (auto simp: get_triangular_symbols_def)
  let ?g = "group_markets ?X ms (Map.empty, Map.empty)"
  from assms ms obtain base r1 where base: "base \<in> set base_assets"
    and r1: "fst ?g base = Some r1"
    and mem: "(b, a2, a3) \<in> set (paths_asset2 ?X ?g base r1)"
    by (auto simp: get_triangular_symbols_def Let_def split: option.splits) (metis)
  from paths_asset2_mem [OF mem] obtain r2 bs where
    b: "b = base" and a2: "a2 \<in> set r1" "a2 \<noteq> base" "a2 \<notin> set ?X"
    and r2: "fst ?g a2 = Some r2" "a3 \<in> set r2"
    and a3: "a3 \<noteq> base" "a3 \<noteq> a2" "a3 \<notin> set ?X"
    and bs: "snd ?g a3 = Some bs" "base \<in> set bs"
    by blast
  have "offers_market ?X ms b a2" using grouped_by_base [OF r1 a2(1)] b by simp
  moreover have "offers_market ?X ms a2 a3" using grouped_by_base [OF r2] by simp
  moreover have "offers_market ?X ms b a3" using grouped_by_quote [OF bs] b by simp
  ultimately show ?thesis using base b a2 a3 ms by (simp add: get_markets_def)
qed

lemma try_paths:
  "get_triangular_symbols scenario_config try_registry ''binance'' (TRI_BASES scenario_config)
     = [(''BTC'', ''USDT'', ''TRY'')]"
  by (simp add: get_triangular_symbols_def scenario_config_def try_registry_def market_meta_def
      group_append_def paths_asset2_def paths_asset3_def)

theorem triangular_paths_sound_witness:
  "(''BTC'', ''USDT'', ''TRY'') \<in> set (get_triangular_symbols scenario_config try_registry
       ''binance'' (TRI_BASES scenario_config))
   \<and> ''BTC'' \<in> set (TRI_BASES scenario_config)
   \<and> offers_market (TRI_EXCLUDE_QUOTES scenario_config) (get_markets try_registry ''binance'')
        ''BTC'' ''USDT''
   \<and> offers_market (TRI_EXCLUDE_QUOTES scenario_config) (get_markets try_registry ''binance'')
        ''USDT'' ''TRY''
   \<and> offers_market (TRI_EXCLUDE_QUOTES scenario_config) (get_markets try_registry ''binance'')
        ''BTC'' ''TRY''"
proof -
  have mem: "(''BTC'', ''USDT'', ''TRY'') \<in> set (get_triangular_symbols scenario_config
      try_registry ''binance'' (TRI_BASES scenario_config))"
    by (simp add: try_paths)
  from triangular_paths_sound [OF mem] mem show ?thesis by simp
qed

text \<open>
  With the base assets USDT, USDC, BTC the enumeration returns the cycle (BTC, USDT, TRY),
  whose second asset is a base asset.
\<close>

theorem triangular_paths_base_counterexample:
  "(''BTC'', ''USDT'', ''TRY'') \<in> set (get_triangular_symbols scenario_config try_registry
       ''binance'' (TRI_BASES scenario_config))
   \<and> ''USDT'' \<in> set (TRI_BASES scenario_config) \<union> set (TRI_EXCLUDE_QUOTES scenario_config)"
  by (simp add: try_paths) (simp add: scenario_config_def)

section \<open>Alert deduplication\<close>

lemma submit_send_alert:
  "\<exists>msg. submit fc ft s (sub, tc, tm) = send_alert s (submission_key sub) msg tc tm"
  by (cases sub) (auto simp: send_cross_exchange_alert_def send_triangular_alert_def)

lemma send_alert_tracked:
  assumes "lo \<le> tc" "tc \<le> tm" "tracked s k m lo"
    and "send_alert s key msg tc tm = (r, s')"
  shows "tracked s' k m tm" and "r \<and> key = k \<longrightarrow> m + alert_ttl \<le> tc"
  using assms
  by (auto simp: send_alert_def is_duplicate_def clean_old_alerts_def mark_sent_def tracked_def
      alert_ttl_def Let_def split: option.splits if_splits)

lemma send_alert_queued:
  assumes "send_alert s key msg tc tm = (True, s')"
  shows "tracked s' key tm tm"
  using assms
  by (auto simp: send_alert_def is_duplicate_def clean_old_alerts_def mark_sent_def tracked_def
      Let_def split: option.splits if_splits)

lemma send_alert_duplicate:
  assumes "sent_alerts s key = Some ts" "tc - ts < alert_ttl"
  shows "fst (send_alert s key msg tc tm) = False"
    and "send_queue (snd (send_alert s key msg tc tm)) = send_queue s"
  using assms
  by (auto simp: send_alert_def is_duplicate_def clean_old_alerts_def Let_def)

lemma run_tracked:
  assumes "clock_ordered lo evs" "tracked s k m lo" "j < length evs"
    and "run_alerts fc ft s evs ! j" "submission_key (fst (evs ! j)) = k"
  shows "m + alert_ttl \<le> fst (snd (evs ! j))"
  using assms
proof (induction evs arbitrary: s lo j)
  case Nil
  then show ?case by simp
next
  case (Cons ev evs)
  obtain sub tc tm where ev: "ev = (sub, tc, tm)" by (cases ev)
  obtain r s1 where sub: "submit fc ft s (sub, tc, tm) = (r, s1)" by (cases "submit fc ft s (sub, tc, tm)")
  from submit_send_alert [of fc ft s sub tc tm] sub
  obtain msg where sa: "send_alert s (submission_key sub) msg tc tm = (r, s1)" by auto
  from Cons.prems(1) have ord: "lo \<le> tc" "tc \<le> tm" "clock_ordered tm evs" by (simp_all add: ev)
  note st = send_alert_tracked [OF ord(1,2) Cons.prems(2) sa]
  show ?case
  proof (cases j)
    case 0
    with Cons.prems(4,5) st(2) show ?thesis by (simp add: ev sub)
  next
    case (Suc j')
    with Cons.prems(3,4,5) have "j' < length evs" "run_alerts fc ft s1 evs ! j'"
      "submission_key (fst (evs ! j')) = k"
      by (simp_all add: ev sub)
    from Cons.IH [OF ord(3) st(1) this] Suc show ?thesis by simp
  qed
qed

lemma run_dedup:
  assumes "clock_ordered t0 evs" "i < j" "j < length evs"
    and "run_alerts fc ft s evs ! i" "run_alerts fc ft s evs ! j"
    and "submission_key (fst (evs ! i)) = submission_key (fst (evs ! j))"
  shows "snd (snd (evs ! i)) + alert_ttl \<le> fst (snd (evs ! j))"
  using assms
proof (induction evs arbitrary: s t0 i j)
  case Nil
  then show ?case by simp
next
  case (Cons ev evs)
  obtain sub tc tm where ev: "ev = (sub, tc, tm)" by (cases ev)
  obtain r s1 where sub: "submit fc ft s (sub, tc, tm) = (r, s1)" by (cases "submit fc ft s (sub, tc, tm)")
  from submit_send_alert [of fc ft s sub tc tm] sub
  obtain msg where sa: "send_alert s (submission_key sub) msg tc tm = (r, s1)" by auto
  from Cons.prems(1) have ord: "t0 \<le> tc" "tc \<le> tm" "clock_ordered tm evs" by (simp_all add: ev)
  from Cons.prems(2) obtain j' where j: "j = Suc j'" by (cases j) auto
  with Cons.prems(3,5) have j': "j' < length evs" "run_alerts fc ft s1 evs ! j'"
    by (simp_all add: ev sub)
  show ?case
  proof (cases i)
    case 0
    with Cons.prems(4) have r: "r" by (simp add: ev sub)
    with sa have "tracked s1 (submission_key sub) tm tm" by (auto intro: send_alert_queued)
    moreover from Cons.prems(6) 0 j have "submission_key (fst (evs ! j')) = submission_key sub"
      by (simp add: ev)
    ultimately have "tm + alert_ttl \<le> fst (snd (evs ! j'))"
      using run_tracked [OF ord(3) _ j'] by blast
    with 0 j show ?thesis by (simp add: ev)
  next
    case (Suc i')
    with Cons.prems(2,4,6) j have "i' < j'" "run_alerts fc ft s1 evs ! i'"
      "submission_key (fst (evs ! i')) = submission_key (fst (evs ! j'))"
      by (simp_all add: ev sub)
    from Cons.IH [OF ord(3) this(1) j'(1) this(2) j'(2) this(3)] Suc j show ?thesis by simp
  qed
qed

lemma clock_ordered_mark:
  "clock_ordered t0 evs \<Longrightarrow> i < length evs \<Longrightarrow> fst (snd (evs ! i)) \<le> snd (snd (evs ! i))"
proof (induction evs arbitrary: t0 i)
  case Nil
  then show ?case by simp
next
  case (Cons ev evs)
  then show ?case by (cases ev; cases i) auto
qed

text \<open>
  Claim C5. In a run of submissions by the single producer, read off a clock that does
  not run backwards, two submissions that are both queued and share their deduplication
  key are at least 30 seconds apart; and a submission whose key is recorded in the table
  with a time stamp less than 30 seconds old is dropped: it returns false and queues
  nothing.
\<close>

theorem alert_dedup:
  "(clock_ordered t0 evs \<and> i < j \<and> j < length evs
      \<and> run_alerts fc ft s evs ! i \<and> run_alerts fc ft s evs ! j
      \<and> submission_key (fst (evs ! i)) = submission_key (fst (evs ! j))
     \<longrightarrow> 30 \<le> fst (snd (evs ! j)) - fst (snd (evs ! i)))
   \<and> (sent_alerts s (submission_key sub) = Some ts \<and> t_check - ts < 30
     \<longrightarrow> fst (submit fc ft s (sub, t_check, t_mark)) = False
       \<and> send_queue (snd (submit fc ft s (sub, t_check, t_mark))) = send_queue s)"
proof (intro conjI impI)
  assume a: "clock_ordered t0 evs \<and> i < j \<and> j < length evs
      \<and> run_alerts fc ft s evs ! i \<and> run_alerts fc ft s evs ! j
      \<and> submission_key (fst (evs ! i)) = submission_key (fst (evs ! j))"
  then have "snd (snd (evs ! i)) + alert_ttl \<le> fst (snd (evs ! j))"
    by (intro run_dedup [of t0 evs i j fc ft s]) simp_all
  moreover have "fst (snd (evs ! i)) \<le> snd (snd (evs ! i))"
    using a by (intro clock_ordered_mark [of t0]) simp_all
  ultimately show "30 \<le> fst (snd (evs ! j)) - fst (snd (evs ! i))"
    by (simp add: alert_ttl_def)
next
  assume b: "sent_alerts s (submission_key sub) = Some ts \<and> t_check - ts < 30"
  obtain msg where m: "submit fc ft s (sub, t_check, t_mark)
      = send_alert s (submission_key sub) msg t_check t_mark"
    using submit_send_alert by blast
  from b show "fst (submit fc ft s (sub, t_check, t_mark)) = False"
    unfolding m by (intro send_alert_duplicate(1) [of _ _ ts]) (simp_all add: alert_ttl_def)
  from b show "send_queue (snd (submit fc ft s (sub, t_check, t_mark))) = send_queue s"
    unfolding m by (intro send_alert_duplicate(2) [of _ _ ts]) (simp_all add: alert_ttl_def)
qed

lemma repeated_run:
  "run_alerts cross_text tri_text fresh_alert_manager repeated_submissions
     = [True, False, False, True]"
  by (simp add: repeated_submissions_def fresh_alert_manager_def send_cross_exchange_alert_def
      send_alert_def is_duplicate_def clean_old_alerts_def mark_sent_def alert_ttl_def Let_def)

theorem alert_dedup_witness:
  "run_alerts cross_text tri_text fresh_alert_manager repeated_submissions
     = [True, False, False, True]
   \<and> clock_ordered 0 repeated_submissions
   \<and> (30::real) \<le> fst (snd (repeated_submissions ! 3)) - fst (snd (repeated_submissions ! 0))
   \<and> fst (submit cross_text tri_text
        (fresh_alert_manager\<lparr>sent_alerts := [Opportunity_dedupe_key scenario_opportunity \<mapsto> 0]\<rparr>)
        (Cross scenario_opportunity, 2, 2)) = False"
proof -
  let ?s = "fresh_alert_manager\<lparr>sent_alerts := [Opportunity_dedupe_key scenario_opportunity \<mapsto> 0]\<rparr>"
  have ord: "clock_ordered 0 repeated_submissions"
    by (simp add: repeated_submissions_def)
  have len: "(0::nat) < 3 \<and> 3 < length repeated_submissions"
    by (simp add: repeated_submissions_def)
  have keys: "submission_key (fst (repeated_submissions ! 0))
      = submission_key (fst (repeated_submissions ! 3))"
    by (simp add: repeated_submissions_def)
  have rec: "sent_alerts ?s (submission_key (Cross scenario_opportunity)) = Some 0 \<and> (2::real) - 0 < 30"
    by simp
  from alert_dedup [where ?t0.0 = 0 and evs = repeated_submissions and i = 0 and j = 3
      and fc = cross_text and ft = tri_text and s = fresh_alert_manager]
    ord len keys repeated_run
  have gap: "(30::real) \<le> fst (snd (repeated_submissions ! 3)) - fst (snd (repeated_submissions ! 0))"
    by simp
  from alert_dedup [where s = ?s and sub = "Cross scenario_opportunity" and ts = 0
      and t_check = 2 and t_mark = 2 and fc = cross_text and ft = tri_text] rec
  have "fst (submit cross_text tri_text ?s (Cross scenario_opportunity, 2, 2)) = False"
    by blast
  with repeated_run ord gap show ?thesis by blast
qed

section \<open>Fee overrides\<close>

lemma starts_with_append: "starts_with (n @ rest) n"
  by (induction n) simp_all

lemma str_in_suffix: "str_in n (u @ n)"
proof (induction u)
  case Nil
  show ?case by (cases n) (simp_all add: starts_with_append [of _ "[]", simplified])
next
  case (Cons c u)
  then show ?case by simp
qed

lemma py_split_nonempty: "py_split c s \<noteq> []"
  by (induction s) (auto split: list.splits)

lemma py_split_prefix:
  "c \<notin> set u \<Longrightarrow> py_split c (u @ c # rest) = u # py_split c rest"
  by (induction u) (auto split: list.splits)

lemma targets_fee_var:
  assumes "CHR ''_'' \<notin> set U" "kind = ''TAKER'' \<or> kind = ''MAKER''"
  shows "targets (U @ ''_'' @ kind @ ''_FEE'') (py_lower U) (py_lower kind)"
proof -
  have sp: "py_split CHR ''_'' (U @ ''_'' @ kind @ ''_FEE'') = [U, kind, ''FEE'']"
    using assms py_split_prefix [of "CHR ''_''" U "kind @ ''_FEE''"] by auto
  have "str_in (''_'' @ kind @ ''_FEE'') (U @ ''_'' @ kind @ ''_FEE'')"
    by (rule str_in_suffix)
  then have "str_in ''_TAKER_FEE'' (U @ ''_'' @ kind @ ''_FEE'')
      \<or> str_in ''_MAKER_FEE'' (U @ ''_'' @ kind @ ''_FEE'')"
    using assms(2) by auto
  then show ?thesis unfolding targets_def sp by simp
qed

lemma override_of_fresh:
  "ov e = None \<Longrightarrow> override_of (ov(e \<mapsto> Map.empty)) ex ft = override_of ov ex ft"
  by (simp add: override_of_def)

lemma override_of_upd:
  "override_of (ov(e \<mapsto> d(t \<mapsto> x))) ex ft =
     (if ex = e then (if ft = t then Some x else d ft) else override_of ov ex ft)"
  by (simp add: override_of_def)

lemma loop_step:
  "\<exists>ov'. get_fee_overrides_loop float ((k, v) # rest) ov = get_fee_overrides_loop float rest ov'
     \<and> (\<not> targets k ex ft \<longrightarrow> override_of ov' ex ft = override_of ov ex ft)
     \<and> (targets k ex ft \<longrightarrow> (\<forall>x. float v = Some x \<longrightarrow> override_of ov' ex ft = Some x))"
proof -
  let ?parts = "py_split CHR ''_'' k"
  let ?e = "py_lower (?parts ! 0)"
  let ?t = "py_lower (?parts ! 1)"
  let ?rel = "(str_in ''_TAKER_FEE'' k \<or> str_in ''_MAKER_FEE'' k) \<and> 3 \<le> length ?parts"
  let ?ov1 = "if ov ?e = None then ov(?e \<mapsto> Map.empty) else ov"
  have tg: "targets k ex ft \<longleftrightarrow> ?rel \<and> ?e = ex \<and> ?t = ft"
    by (auto simp: targets_def)
  have ov1: "override_of ?ov1 ex ft = override_of ov ex ft"
    by (simp add: override_of_fresh)
  show ?thesis
  proof (cases ?rel)
    case False
    then have "get_fee_overrides_loop float ((k, v) # rest) ov = get_fee_overrides_loop float rest ov"
      by auto
    moreover from False have "\<not> targets k ex ft" unfolding tg by blast
    ultimately show ?thesis by blast
  next
    case True
    show ?thesis
    proof (cases "float v")
      case None
      with True have "get_fee_overrides_loop float ((k, v) # rest) ov
          = get_fee_overrides_loop float rest ?ov1"
        by (simp add: Let_def)
      with ov1 None show ?thesis by (intro exI [of _ ?ov1]) simp
    next
      case (Some x)
      obtain d where d: "?ov1 ?e = Some d" by (cases "ov ?e") auto
      let ?ov2 = "?ov1(?e \<mapsto> d(?t \<mapsto> x))"
      from True Some d have "get_fee_overrides_loop float ((k, v) # rest) ov
          = get_fee_overrides_loop float rest ?ov2"
        by (simp add: Let_def)
      moreover have "\<not> targets k ex ft \<longrightarrow> override_of ?ov2 ex ft = override_of ov ex ft"
      proof
        assume "\<not> targets k ex ft"
        with True have "?e \<noteq> ex \<or> ?t \<noteq> ft" unfolding tg by blast
        then have "override_of ?ov2 ex ft = override_of ?ov1 ex ft"
          using d unfolding override_of_upd by (auto simp: override_of_def)
        with ov1 show "override_of ?ov2 ex ft = override_of ov ex ft" by simp
      qed
      moreover have "targets k ex ft \<longrightarrow> (\<forall>y. float v = Some y \<longrightarrow> override_of ?ov2 ex ft = Some y)"
        using Some unfolding override_of_upd tg by simp
      ultimately show ?thesis by (intro exI [of _ ?ov2]) blast
    qed
  qed
qed

lemma loop_preserves:
  "\<forall>(k, v) \<in> set env. \<not> targets k ex ft
     \<Longrightarrow> override_of (get_fee_overrides_loop float env ov) ex ft = override_of ov ex ft"
proof (induction env arbitrary: ov)
  case Nil
  then show ?case by simp
next
  case (Cons kv env)
  obtain k v where kv: "kv = (k, v)" by (cases kv)
  from loop_step [of float k v env ov ex ft] obtain ov' where
    st: "get_fee_overrides_loop float ((k, v) # env) ov = get_fee_overrides_loop float env ov'"
    and keep: "\<not> targets k ex ft \<longrightarrow> override_of ov' ex ft = override_of ov ex ft"
    by blast
  from Cons.prems have "\<not> targets k ex ft" and rest: "\<forall>(k, v) \<in> set env. \<not> targets k ex ft"
    by (simp_all add: kv)
  with keep Cons.IH [OF rest, of ov'] show ?case unfolding kv st by simp
qed

lemma loop_sets:
  assumes "distinct (map fst env)" "(K, val) \<in> set env" "targets K ex ft" "float val = Some x"
    and "\<forall>(k, v) \<in> set env. k \<noteq> K \<longrightarrow> \<not> targets k ex ft"
  shows "override_of (get_fee_overrides_loop float env ov) ex ft = Some x"
  using assms(1,2,5)
proof (induction env arbitrary: ov)
  case Nil
  then show ?case by simp
next
  case (Cons kv env)
  obtain k v where kv: "kv = (k, v)" by (cases kv)
  from loop_step [of float k v env ov ex ft] obtain ov' where
    st: "get_fee_overrides_loop float ((k, v) # env) ov = get_fee_overrides_loop float env ov'"
    and set: "targets k ex ft \<longrightarrow> (\<forall>x. float v = Some x \<longrightarrow> override_of ov' ex ft = Some x)"
    by blast
  show ?case
  proof (cases "k = K")
    case True
    with Cons.prems(1) have notin: "K \<notin> fst ` set env"
      by (auto simp: kv)
    with Cons.prems(2) True have v: "v = val"
      by (force simp: kv)
    from notin have "\<forall>(k, v) \<in> set env. k \<noteq> K" by force
    with Cons.prems(3) have "\<forall>(k, v) \<in> set env. \<not> targets k ex ft" by (auto simp: kv)
    from loop_preserves [OF this, of float ov']
    have "override_of (get_fee_overrides_loop float env ov') ex ft = override_of ov' ex ft" .
    moreover have "override_of ov' ex ft = Some x" using set True v assms(3,4) by simp
    ultimately show ?thesis unfolding kv st by simp
  next
    case False
    with Cons.prems have "distinct (map fst env)" "(K, val) \<in> set env"
      "\<forall>(k, v) \<in> set env. k \<noteq> K \<longrightarrow> \<not> targets k ex ft"
      by (auto simp: kv)
    from Cons.IH [OF this, of ov'] show ?thesis unfolding kv st .
  qed
qed


lemma get_fees_miss:
  assumes "fee_cache fm (cache_key V symbol) = None" "env_overrides fm V = Some d"
  shows "FeeManager_get_fees registry fm V symbol =
     (let fees = fetch_public_fees registry V;
          fees1 = (case d ''maker'' of Some m \<Rightarrow> fees\<lparr>maker := m, source := Env\<rparr> | None \<Rightarrow> fees);
          fees2 = (case d ''taker'' of Some t \<Rightarrow> fees1\<lparr>taker := t, source := Env\<rparr> | None \<Rightarrow> fees1)
      in (fees2, fm\<lparr>fee_cache := (fee_cache fm)(cache_key V symbol \<mapsto> fees2)\<rparr>))"
  using assms by (simp add: FeeManager_get_fees_def Let_def)

lemma get_fees_hit:
  "fee_cache fm (cache_key V symbol) = Some fees
     \<Longrightarrow> FeeManager_get_fees registry fm V symbol = (fees, fm)"
  by (simp add: FeeManager_get_fees_def)

lemma get_fees_override:
  assumes miss: "fee_cache fm (cache_key V symbol) = None"
    and ov: "override_of (env_overrides fm) V ft = Some x" and ft: "ft = ''taker'' \<or> ft = ''maker''"
  shows "source (fst (FeeManager_get_fees registry fm V symbol)) = Env"
    and "(if ft = ''taker'' then taker (fst (FeeManager_get_fees registry fm V symbol))
          else maker (fst (FeeManager_get_fees registry fm V symbol))) = x"
    and "FeeManager_get_fees registry (snd (FeeManager_get_fees registry fm V symbol)) V symbol
          = FeeManager_get_fees registry fm V symbol"
proof -
  from ov obtain d where d: "env_overrides fm V = Some d" "d ft = Some x"
    by (auto simp: override_of_def split: option.splits)
  note eq = get_fees_miss [OF miss d(1), of registry]
  show "source (fst (FeeManager_get_fees registry fm V symbol)) = Env"
    unfolding eq using d(2) ft
    by (cases "d ''maker''"; cases "d ''taker''") (auto simp: Let_def)
  show "(if ft = ''taker'' then taker (fst (FeeManager_get_fees registry fm V symbol))
          else maker (fst (FeeManager_get_fees registry fm V symbol))) = x"
    unfolding eq using d(2) ft
    by (cases "d ''maker''"; cases "d ''taker''") (auto simp: Let_def)
  show "FeeManager_get_fees registry (snd (FeeManager_get_fees registry fm V symbol)) V symbol
          = FeeManager_get_fees registry fm V symbol"
  proof -
    obtain fees fm' where r: "FeeManager_get_fees registry fm V symbol = (fees, fm')"
      by (cases "FeeManager_get_fees registry fm V symbol")
    with eq have "fee_cache fm' (cache_key V symbol) = Some fees"
      by (auto simp: Let_def)
    from get_fees_hit [OF this] r show ?thesis by simp
  qed
qed


lemma py_lower_kind:
  "py_lower ''TAKER'' = ''taker''" "py_lower ''MAKER'' = ''maker''"
  by (simp_all add: py_lower_def lower_char_def)

text \<open>
  Where the override is applied. Let the venue name \<open>V\<close> be the lower-case form of a
  prefix \<open>U\<close> without underscore. If the environment holds \<open>U_TAKER_FEE\<close>
  (respectively \<open>U_MAKER_FEE\<close>) with a value that \<open>float\<close> parses to \<open>x\<close>, and no
  other variable of the environment is read as the same override, then the fee lookup for
  \<open>V\<close> that misses the cache returns \<open>x\<close> as the taker (respectively maker) fee with
  provenance \<open>env\<close>, whatever the published or built-in fees are, and the same lookup
  repeated returns the same fees.
\<close>

lemma env_override_applies:
  assumes "distinct (map fst environ)"
    and "CHR ''_'' \<notin> set U" and "py_lower U = V"
    and "kind = ''TAKER'' \<or> kind = ''MAKER''"
    and "(U @ ''_'' @ kind @ ''_FEE'', val) \<in> set environ"
    and "float val = Some x"
    and "\<forall>(k, v) \<in> set environ. k \<noteq> U @ ''_'' @ kind @ ''_FEE'' \<longrightarrow> \<not> targets k V (py_lower kind)"
    and "env_overrides fm = get_fee_overrides float environ"
    and "fee_cache fm (cache_key V symbol) = None"
  shows "source (fst (FeeManager_get_fees registry fm V symbol)) = Env
    \<and> (if kind = ''TAKER'' then taker (fst (FeeManager_get_fees registry fm V symbol))
        else maker (fst (FeeManager_get_fees registry fm V symbol))) = x
    \<and> FeeManager_get_fees registry (snd (FeeManager_get_fees registry fm V symbol)) V symbol
        = FeeManager_get_fees registry fm V symbol"
proof -
  let ?K = "U @ ''_'' @ kind @ ''_FEE''"
  let ?ft = "py_lower kind"
  have tg: "targets ?K V ?ft"
    using targets_fee_var [OF assms(2,4)] assms(3) by simp
  have "override_of (get_fee_overrides_loop float environ Map.empty) V ?ft = Some x"
    using assms(1) assms(5) tg assms(6) assms(7)
    by (rule loop_sets [where float = float and val = val])
  then have ov: "override_of (env_overrides fm) V ?ft = Some x"
    by (simp add: assms(8) get_fee_overrides_def)
  have ft: "?ft = ''taker'' \<or> ?ft = ''maker''"
    using assms(4) py_lower_kind by auto
  have kt: "?ft = ''taker'' \<longleftrightarrow> kind = ''TAKER''"
    using assms(4) py_lower_kind by auto
  from get_fees_override [OF assms(9) ov ft, of registry] show ?thesis
    unfolding kt by blast
qed

lemma env_override_applies_binance:
  "source (fst (FeeManager_get_fees binance_registry
       (FeeManager_init float_literal binance_environ) ''binance'' None)) = Env
   \<and> taker (fst (FeeManager_get_fees binance_registry
       (FeeManager_init float_literal binance_environ) ''binance'' None)) = 0.0005"
proof -
  have h1: "distinct (map fst binance_environ)" by (simp add: binance_environ_def)
  have h2: "CHR ''_'' \<notin> set ''BINANCE''" by simp
  have h3: "py_lower ''BINANCE'' = ''binance''" by (simp add: py_lower_def lower_char_def)
  have h4: "''TAKER'' = ''TAKER'' \<or> ''TAKER'' = ''MAKER''" by simp
  have h5: "(''BINANCE'' @ ''_'' @ ''TAKER'' @ ''_FEE'', ''0.0005'') \<in> set binance_environ"
    by (simp add: binance_environ_def)
  have h6: "float_literal ''0.0005'' = Some 0.0005" by (simp add: float_literal_def)
  have h7: "\<forall>(k, v) \<in> set binance_environ. k \<noteq> ''BINANCE'' @ ''_'' @ ''TAKER'' @ ''_FEE''
      \<longrightarrow> \<not> targets k ''binance'' (py_lower ''TAKER'')"
    by (simp add: binance_environ_def targets_def)
  have h8: "env_overrides (FeeManager_init float_literal binance_environ)
      = get_fee_overrides float_literal binance_environ"
    by (simp add: FeeManager_init_def)
  have h9: "fee_cache (FeeManager_init float_literal binance_environ) (cache_key ''binance'' None) = None"
    by (simp add: FeeManager_init_def)
  from env_override_applies [OF h1 h2 h3 h4 h5 h6 h7 h8 h9, of binance_registry] show ?thesis by simp
qed

text \<open>
  Claim C8. The claim fails on the code at two environments. For the venue
  \<open>exchange_a\<close> the variable \<open>EXCHANGE_A_TAKER_FEE=0.0005\<close> is stored as fee type
  \<open>a\<close> of an exchange \<open>exchange\<close>, and the lookup for \<open>exchange_a\<close> returns the
  default taker fee 0.0015 with provenance \<open>default\<close>. For the venue \<open>binance\<close>
  with \<open>BINANCE_TAKER_FEE=0.0005\<close> followed by \<open>BINANCE_TAKER_FEE_OLD=0.9\<close>, the
  second variable is read as a taker override of binance as well, and the lookup returns
  the taker fee 0.9.
\<close>

theorem env_fee_override_failing_inputs:
  "(''EXCHANGE_A_TAKER_FEE'', ''0.0005'') \<in> set exchange_a_environ
   \<and> float_literal ''0.0005'' = Some 0.0005
   \<and> override_of (get_fee_overrides float_literal exchange_a_environ) ''exchange'' ''a''
        = Some 0.0005
   \<and> get_fee_overrides float_literal exchange_a_environ ''exchange_a'' = None
   \<and> taker (fst (FeeManager_get_fees empty_registry
       (FeeManager_init float_literal exchange_a_environ) ''exchange_a'' None)) = 0.0015
   \<and> source (fst (FeeManager_get_fees empty_registry
       (FeeManager_init float_literal exchange_a_environ) ''exchange_a'' None)) = Default
   \<and> (''BINANCE_TAKER_FEE'', ''0.0005'') \<in> set binance_old_environ
   \<and> taker (fst (FeeManager_get_fees empty_registry
       (FeeManager_init float_literal binance_old_environ) ''binance'' None)) = 0.9
   \<and> source (fst (FeeManager_get_fees empty_registry
       (FeeManager_init float_literal binance_old_environ) ''binance'' None)) = Env"
  by (simp add: exchange_a_environ_def binance_old_environ_def float_literal_def
      FeeManager_init_def get_fee_overrides_def override_of_def py_lower_def lower_char_def
      FeeManager_get_fees_def cache_key_def fetch_public_fees_def get_exchange_def
      empty_registry_def get_fallback_fees_def known_fees_def default_taker_def
      default_maker_def Let_def)

section \<open>Hop resolution of the triangular engine\<close>















end
